theory Spec2Isabelle
  imports Main "HOL-Library.Word" "HOL-Library.Product_Lexorder" "HOL-Library.Signed_Division"
begin

section \<open>Shared result type\<close>

text \<open>
  A Go function that may panic returns \<open>Panic msg\<close> in the model; \<open>Ok v\<close> is a normal
  return.
\<close>

datatype 'a result = Ok 'a | Panic string

section \<open>Memory pool (package mempool)\<close>

subsection \<open>Data\<close>

type_synonym Uint256 = "256 word"

type_synonym Fixed8 = int

text \<open>
  \<open>transaction.TXType\<close> is declared in another package; the pool only tells
  \<open>ClaimType\<close> from every other type, which keeps its numeric tag.
\<close>

datatype TXType = ClaimType | OtherType "8 word"

record Input =
  PrevHash :: Uint256
  PrevIndex :: "16 word"

text \<open>
  The fields of \<open>transaction.Transaction\<close> that the pool reads: \<open>Type\<close>, \<open>Inputs\<close> (a
  slice of \<open>Input\<close> values, compared field by field) and the value returned by \<open>Hash()\<close>
  (field \<open>txHash\<close>).
\<close>

record PoolTx =
  Type :: TXType
  Inputs :: "Input list"
  txHash :: Uint256

definition TxHash :: "PoolTx \<Rightarrow> Uint256" where
  "TxHash t = txHash t"

record item =
  txn :: PoolTx
  timeStamp :: nat
  perByteFee :: Fixed8
  netFee :: Fixed8
  isLowPrio :: bool

datatype PoolError = ErrConflict | ErrDup | ErrOOM

record Pool =
  verifiedMap :: "Uint256 \<rightharpoonup> item"
  verifiedTxes :: "item list"
  capacity :: nat

text \<open>The \<open>Feer\<close> interface handed to \<open>Add\<close>.\<close>

record Feer =
  FeePerByte :: "PoolTx \<Rightarrow> Fixed8"
  NetworkFee :: "PoolTx \<Rightarrow> Fixed8"
  IsLowPriority :: "Fixed8 \<Rightarrow> bool"

subsection \<open>Comparison\<close>

text \<open>
  Modelled from the spec: \<open>util.Fixed8.CompareTo\<close>, whose body is not part of the files
  modelled. The spec
  orders fees by their numeric value (a higher fee wins), so the comparison is the
  three-way comparison of the two numbers.
\<close>

definition Fixed8_CompareTo :: "Fixed8 \<Rightarrow> Fixed8 \<Rightarrow> int" where
  "Fixed8_CompareTo f g = (if f < g then - 1 else if f = g then 0 else 1)"

text \<open>
  Modelled from the spec: \<open>util.Uint256.CompareTo\<close>, whose body is not part of the files
  modelled. The spec
  orders hashes by their value (the lower hash sorts first), so the comparison is the
  three-way comparison of the two 256-bit values.
\<close>

definition Uint256_CompareTo :: "Uint256 \<Rightarrow> Uint256 \<Rightarrow> int" where
  "Uint256_CompareTo u v = (if u < v then - 1 else if u = v then 0 else 1)"

text \<open>\<open>item.CompareTo\<close>; the argument \<open>None\<close> is the nil pointer.\<close>

definition CompareTo :: "item \<Rightarrow> item option \<Rightarrow> int" where
  "CompareTo p otherP =
     (case otherP of
        None \<Rightarrow> 1
      | Some q \<Rightarrow>
          if \<not> isLowPrio p \<and> isLowPrio q then 1
          else if isLowPrio p \<and> \<not> isLowPrio q then - 1
          else if isLowPrio p \<and> isLowPrio q
                  \<and> (Type (txn p) = ClaimType) \<noteq> (Type (txn q) = ClaimType)
               then (if Type (txn p) = ClaimType then 1 else - 1)
          else if Fixed8_CompareTo (perByteFee p) (perByteFee q) \<noteq> 0
               then Fixed8_CompareTo (perByteFee p) (perByteFee q)
          else if Fixed8_CompareTo (netFee p) (netFee q) \<noteq> 0
               then Fixed8_CompareTo (netFee p) (netFee q)
          else Uint256_CompareTo (TxHash (txn q)) (TxHash (txn p)))"

subsection \<open>Queries\<close>

definition count :: "Pool \<Rightarrow> nat" where
  "count mp = length (verifiedTxes mp)"

definition Count :: "Pool \<Rightarrow> nat" where
  "Count mp = count mp"

definition containsKey :: "Pool \<Rightarrow> Uint256 \<Rightarrow> bool" where
  "containsKey mp h = (case verifiedMap mp h of Some _ \<Rightarrow> True | None \<Rightarrow> False)"

definition ContainsKey :: "Pool \<Rightarrow> Uint256 \<Rightarrow> bool" where
  "ContainsKey mp h = containsKey mp h"

definition TryGetValue :: "Pool \<Rightarrow> Uint256 \<Rightarrow> PoolTx option" where
  "TryGetValue mp h = (case verifiedMap mp h of Some pItem \<Rightarrow> Some (txn pItem) | None \<Rightarrow> None)"

definition GetVerifiedTransactions :: "Pool \<Rightarrow> PoolTx list" where
  "GetVerifiedTransactions mp = map txn (verifiedTxes mp)"

definition NewMemPool :: "nat \<Rightarrow> Pool" where
  "NewMemPool c = \<lparr>verifiedMap = Map.empty, verifiedTxes = [], capacity = c\<rparr>"

text \<open>
  \<open>verifyInputs\<close>: the three nested iterations return false at the first pair of equal
  inputs, and true when there is none.
\<close>

definition verifyInputs :: "Pool \<Rightarrow> PoolTx \<Rightarrow> bool" where
  "verifyInputs mp tx =
     (if length (Inputs tx) = 0 then True
      else \<not> list_ex (\<lambda>it. list_ex (\<lambda>i. list_ex (\<lambda>j. i = j) (Inputs tx)) (Inputs (txn it)))
                 (verifiedTxes mp))"

definition Verify :: "Pool \<Rightarrow> PoolTx \<Rightarrow> bool" where
  "Verify mp tx = verifyInputs mp tx"

subsection \<open>Add\<close>

text \<open>
  \<open>sort.Search\<close> of the Go library: binary search for the least index in \<open>[0, n)\<close>
  at which \<open>f\<close> holds, \<open>n\<close> when there is none (for a monotone \<open>f\<close>).
\<close>

function Search_loop :: "(nat \<Rightarrow> bool) \<Rightarrow> nat \<Rightarrow> nat \<Rightarrow> nat" where
  "Search_loop f i j =
     (if i < j then
        (let h = (i + j) div 2 in
         if \<not> f h then Search_loop f (h + 1) j else Search_loop f i h)
      else i)"
  by pat_completeness auto
termination
  by (relation "measure (\<lambda>(f, i, j). j - i)") auto

declare Search_loop.simps [simp del]

definition Search :: "nat \<Rightarrow> (nat \<Rightarrow> bool) \<Rightarrow> nat" where
  "Search n f = Search_loop f 0 n"

text \<open>
  \<open>copy(s[n+1:], s[n:]); s[n] = pItem\<close>: the elements from \<open>n\<close> on move one place to
  the right, the last one is overwritten, and the new item takes place \<open>n\<close>.
\<close>

definition shiftInsert :: "item list \<Rightarrow> nat \<Rightarrow> item \<Rightarrow> item list" where
  "shiftInsert s n pItem =
     (take (n + 1) s @ take (length s - (n + 1)) (drop n s))[n := pItem]"

definition Add :: "PoolTx \<Rightarrow> Feer \<Rightarrow> nat \<Rightarrow> Pool \<Rightarrow> PoolError option \<times> Pool" where
  "Add t fee now mp =
     (let pItem0 = \<lparr>txn = t, timeStamp = now, perByteFee = FeePerByte fee t,
                    netFee = NetworkFee fee t, isLowPrio = False\<rparr>;
          pItem = pItem0\<lparr>isLowPrio := IsLowPriority fee (netFee pItem0)\<rparr>
      in
      if \<not> verifyInputs mp t then (Some ErrConflict, mp)
      else if containsKey mp (TxHash t) then (Some ErrDup, mp)
      else
        (let mp1 = mp\<lparr>verifiedMap := (verifiedMap mp)(TxHash t \<mapsto> pItem)\<rparr>;
             n = Search (length (verifiedTxes mp1))
                   (\<lambda>n. CompareTo pItem (Some (verifiedTxes mp1 ! n)) > 0)
         in
         if length (verifiedTxes mp1) = capacity mp1 then
           (if n = length (verifiedTxes mp1) then (Some ErrOOM, mp1)
            else
              (let unlucky = verifiedTxes mp1 ! (length (verifiedTxes mp1) - 1);
                   mp2 = mp1\<lparr>verifiedMap := (verifiedMap mp1)(TxHash (txn unlucky) := None)\<rparr>;
                   mp3 = mp2\<lparr>verifiedTxes :=
                               (verifiedTxes mp2)[length (verifiedTxes mp2) - 1 := pItem]\<rparr>
               in
               if n \<noteq> length (verifiedTxes mp3) - 1
               then (None, mp3\<lparr>verifiedTxes := shiftInsert (verifiedTxes mp3) n pItem\<rparr>)
               else (None, mp3)))
         else
           (let mp3 = mp1\<lparr>verifiedTxes := verifiedTxes mp1 @ [pItem]\<rparr>
            in
            if n \<noteq> length (verifiedTxes mp3) - 1
            then (None, mp3\<lparr>verifiedTxes := shiftInsert (verifiedTxes mp3) n pItem\<rparr>)
            else (None, mp3))))"

text \<open>The item that \<open>Add\<close> builds for a transaction.\<close>

definition mkItem :: "Feer \<Rightarrow> nat \<Rightarrow> PoolTx \<Rightarrow> item" where
  "mkItem fee now t =
     \<lparr>txn = t, timeStamp = now, perByteFee = FeePerByte fee t, netFee = NetworkFee fee t,
      isLowPrio = IsLowPriority fee (NetworkFee fee t)\<rparr>"

subsection \<open>Remove and RemoveStale\<close>

text \<open>
  The loop of \<open>Remove\<close> declares its own \<open>num\<close> (\<open>for num := range\<close>), which ends with
  the loop; \<open>Remove_scan\<close> is that inner variable at the \<open>break\<close>. The \<open>num\<close> declared
  before the loop is never assigned and is still 0 when the slice is cut.
\<close>

fun Remove_scan :: "Uint256 \<Rightarrow> item list \<Rightarrow> nat \<Rightarrow> nat" where
  "Remove_scan h [] k = k"
| "Remove_scan h (x # xs) k = (if h = TxHash (txn x) then k else Remove_scan h xs (k + 1))"

definition Remove :: "Uint256 \<Rightarrow> Pool \<Rightarrow> Pool" where
  "Remove h mp =
     (case verifiedMap mp h of
        None \<Rightarrow> mp
      | Some _ \<Rightarrow>
          (let num = (0::nat);
               mp1 = mp\<lparr>verifiedMap := (verifiedMap mp)(h := None)\<rparr>;
               inner_num = Remove_scan h (verifiedTxes mp1) 0
           in
           if int num < int (length (verifiedTxes mp1)) - 1
           then mp1\<lparr>verifiedTxes := take num (verifiedTxes mp1) @ drop (num + 1) (verifiedTxes mp1)\<rparr>
           else if int num = int (length (verifiedTxes mp1)) - 1
           then mp1\<lparr>verifiedTxes := take num (verifiedTxes mp1)\<rparr>
           else mp1))"

fun RemoveStale_loop ::
  "(PoolTx \<Rightarrow> bool) \<Rightarrow> item list \<Rightarrow> (Uint256 \<rightharpoonup> item) \<Rightarrow> item list
     \<Rightarrow> (Uint256 \<rightharpoonup> item) \<times> item list" where
  "RemoveStale_loop isOK [] m newVerifiedTxes = (m, newVerifiedTxes)"
| "RemoveStale_loop isOK (itm # rest) m newVerifiedTxes =
     (if isOK (txn itm) then RemoveStale_loop isOK rest m (newVerifiedTxes @ [itm])
      else RemoveStale_loop isOK rest (m(TxHash (txn itm) := None)) newVerifiedTxes)"

definition RemoveStale :: "(PoolTx \<Rightarrow> bool) \<Rightarrow> Pool \<Rightarrow> Pool" where
  "RemoveStale isOK mp =
     (case RemoveStale_loop isOK (verifiedTxes mp) (verifiedMap mp) [] of
        (m, newVerifiedTxes) \<Rightarrow> mp\<lparr>verifiedMap := m, verifiedTxes := newVerifiedTxes\<rparr>)"


section \<open>Execution context (pkg/vm/context.go)\<close>

type_synonym Instruction = "8 word"

record Context =
  ip :: int
  prog :: "8 word list"
  breakPoints :: "int list"

definition NewContext :: "8 word list \<Rightarrow> Context" where
  "NewContext b = \<lparr>ip = - 1, prog = b, breakPoints = []\<rparr>"

text \<open>
  \<open>Next\<close>. The constant \<open>RET\<close> of type \<open>Instruction\<close> is declared with the other
  opcodes and is a parameter here. Indexing a slice at a negative position panics.
\<close>

definition Next :: "Instruction \<Rightarrow> Context \<Rightarrow> (Instruction \<times> Context) result" where
  "Next RET c =
     (let c1 = c\<lparr>ip := ip c + 1\<rparr> in
      if ip c1 \<ge> int (length (prog c1)) then Ok (RET, c1)
      else if ip c1 < 0 then Panic ''index out of range''
      else Ok (prog c1 ! nat (ip c1), c1))"

definition IP :: "Context \<Rightarrow> int" where
  "IP c = ip c + 1"

definition LenInstr :: "Context \<Rightarrow> int" where
  "LenInstr c = int (length (prog c))"

text \<open>The slice expression \<open>s[start:end]\<close>, which panics outside \<open>0 \<le> start \<le> end \<le> len s\<close>.\<close>

definition slice :: "'a list \<Rightarrow> int \<Rightarrow> int \<Rightarrow> 'a list result" where
  "slice s start end =
     (if 0 \<le> start \<and> start \<le> end \<and> end \<le> int (length s)
      then Ok (take (nat (end - start)) (drop (nat start) s))
      else Panic ''slice bounds out of range'')"

text \<open>\<open>binary.LittleEndian.Uint16\<close> and \<open>Uint32\<close> of the Go library, on a slice long enough.\<close>

definition LittleEndian_Uint16 :: "8 word list \<Rightarrow> 16 word" where
  "LittleEndian_Uint16 b = or (ucast (b ! 0)) (push_bit 8 (ucast (b ! 1)))"

definition LittleEndian_Uint32 :: "8 word list \<Rightarrow> 32 word" where
  "LittleEndian_Uint32 b =
     or (or (or (ucast (b ! 0)) (push_bit 8 (ucast (b ! 1)))) (push_bit 16 (ucast (b ! 2))))
        (push_bit 24 (ucast (b ! 3)))"

definition readUint32 :: "Context \<Rightarrow> (32 word \<times> Context) result" where
  "readUint32 c =
     (let start = IP c; end = IP c + 4 in
      if end > int (length (prog c)) then Panic ''failed to read uint32 parameter''
      else (case slice (prog c) start end of
              Panic msg \<Rightarrow> Panic msg
            | Ok b \<Rightarrow> Ok (LittleEndian_Uint32 b, c\<lparr>ip := ip c + 4\<rparr>)))"

definition readUint16 :: "Context \<Rightarrow> (16 word \<times> Context) result" where
  "readUint16 c =
     (let start = IP c; end = IP c + 2 in
      if end > int (length (prog c)) then Panic ''failed to read uint16 parameter''
      else (case slice (prog c) start end of
              Panic msg \<Rightarrow> Panic msg
            | Ok b \<Rightarrow> Ok (LittleEndian_Uint16 b, c\<lparr>ip := ip c + 2\<rparr>)))"

text \<open>\<open>readBytes\<close>: \<open>None\<close> is the nil slice; \<open>make\<close> panics on a negative length.\<close>

definition readBytes :: "int \<Rightarrow> Context \<Rightarrow> (8 word list option \<times> Context) result" where
  "readBytes n c =
     (let start = IP c; end = IP c + n in
      if end > int (length (prog c)) then Ok (None, c)
      else if n < 0 then Panic ''makeslice: len out of range''
      else (case slice (prog c) start end of
              Panic msg \<Rightarrow> Panic msg
            | Ok out \<Rightarrow> Ok (Some out, c\<lparr>ip := ip c + n\<rparr>)))"

text \<open>\<open>readByte\<close> indexes the result of \<open>readBytes\<close>; indexing the nil slice panics.\<close>

definition readByte :: "Context \<Rightarrow> (8 word \<times> Context) result" where
  "readByte c =
     (case readBytes 1 c of
        Panic msg \<Rightarrow> Panic msg
      | Ok (None, c1) \<Rightarrow> Panic ''index out of range''
      | Ok (Some out, c1) \<Rightarrow> Ok (out ! 0, c1))"

definition readVarBytes :: "Context \<Rightarrow> (8 word list option \<times> Context) result" where
  "readVarBytes c =
     (case readByte c of
        Panic msg \<Rightarrow> Panic msg
      | Ok (n, c1) \<Rightarrow> readBytes (uint n) c1)"

subsection \<open>The interpreter around an operand read\<close>

text \<open>The states of the VM (the tests name \<open>faultState\<close>).\<close>

datatype VMState = noneState | haltState | faultState | breakState

text \<open>
  Modelled from the spec: the step of the interpreter that calls a read of \<open>Context\<close>
  (the VM's \<open>execute\<close>, which is not part of the files modelled). By the spec a read
  that runs past the program buffer faults rather than panics or crashes, and all
  VM-internal errors surface as the Fault state, never as a panic of the host. So a Go
  panic raised inside the read leaves the VM in the Fault state, with the context as it
  was when the read was called; a read that returns normally leaves the state alone and
  hands on the value and the context.
\<close>

definition execRead ::
  "(Context \<Rightarrow> ('v \<times> Context) result) \<Rightarrow> Context \<Rightarrow> VMState \<times> 'v option \<times> Context" where
  "execRead rd c =
     (case rd c of
        Panic msg \<Rightarrow> (faultState, None, c)
      | Ok (v, c1) \<Rightarrow> (noneState, Some v, c1))"

text \<open>
  Modelled from the spec: the same step for the reads that return a byte slice
  (\<open>readBytes\<close>, \<open>readVarBytes\<close>). The nil slice is how these reads report that the
  bytes are not there, and by the spec that is a fault as well.
\<close>

definition execReadBytes ::
  "(Context \<Rightarrow> (8 word list option \<times> Context) result) \<Rightarrow> Context
     \<Rightarrow> VMState \<times> 8 word list option \<times> Context" where
  "execReadBytes rd c =
     (case rd c of
        Panic msg \<Rightarrow> (faultState, None, c)
      | Ok (None, c1) \<Rightarrow> (faultState, None, c1)
      | Ok (Some out, c1) \<Rightarrow> (noneState, Some out, c1))"

section \<open>Storage iterator (pkg/core/interop/storage/find.go)\<close>

text \<open>
  The stack items of package \<open>stackitem\<close>, with the variants of the spec's data model. \<open>Value().([]byte)\<close> succeeds on the byte items,
  \<open>Value().([]stackitem.Item)\<close> on arrays and structs; on any other item the type
  assertion panics.
\<close>

datatype Item =
    ByteArray "8 word list"
  | Buffer "8 word list"
  | Integer int
  | BoolT bool
  | Array "Item list"
  | Struct "Item list"
  | Map "(Item \<times> Item) list"
  | Interop nat
  | Pointer nat
  | Null



record MapElement =
  Key :: Item
  Value :: Item


text \<open>The field \<open>m\<close> of the iterator is \<open>it_m\<close> here.\<close>

record Iterator =
  it_m :: "MapElement list"
  opts :: "64 word"
  index :: int


definition Iterator_Next :: "Iterator \<Rightarrow> bool \<times> Iterator" where
  "Iterator_Next s =
     (let s1 = (if index s < int (length (it_m s)) then s\<lparr>index := index s + 1\<rparr> else s)
      in (index s1 < int (length (it_m s1)), s1))"






section \<open>Transaction hashes (package transaction)\<close>

record BinWriter =
  buf :: "8 word list"
  Err :: "string option"

definition NewBufBinWriter :: BinWriter where
  "NewBufBinWriter = \<lparr>buf = [], Err = None\<rparr>"

text \<open>
  What \<open>Transaction\<close> uses from other packages, taken as parameters: the
  hash function \<open>hash.Sha256\<close>, \<open>Uint256.BytesBE\<close>, the write methods of
  \<open>io.BinWriter\<close> and the encoders of the sender, the attributes and the cosigners
  (\<open>Sender.EncodeBinary\<close>, \<open>WriteArray\<close>).
\<close>

record ('a, 'c) Externals =
  Sha256 :: "8 word list \<Rightarrow> Uint256"
  BytesBE :: "Uint256 \<Rightarrow> 8 word list"
  WriteB :: "8 word \<Rightarrow> BinWriter \<Rightarrow> BinWriter"
  WriteU32LE :: "32 word \<Rightarrow> BinWriter \<Rightarrow> BinWriter"
  WriteU64LE :: "64 word \<Rightarrow> BinWriter \<Rightarrow> BinWriter"
  WriteVarBytes :: "8 word list \<Rightarrow> BinWriter \<Rightarrow> BinWriter"
  Uint160_EncodeBinary :: "160 word \<Rightarrow> BinWriter \<Rightarrow> BinWriter"
  WriteAttributes :: "'a list \<Rightarrow> BinWriter \<Rightarrow> BinWriter"
  WriteCosigners :: "'c list \<Rightarrow> BinWriter \<Rightarrow> BinWriter"

text \<open>
  The transaction; the types of attributes, cosigners and witnesses are parameters. The
  field \<open>NetworkFee\<close> is \<open>NetworkFeeT\<close> here.
\<close>

record ('a, 'c, 'w) Transaction =
  Version :: "8 word"
  Nonce :: "32 word"
  Sender :: "160 word"
  SystemFee :: "64 word"
  NetworkFeeT :: "64 word"
  ValidUntilBlock :: "32 word"
  Script :: "8 word list"
  Attributes :: "'a list"
  Cosigners :: "'c list"
  Scripts :: "'w list"
  Network :: "32 word"
  hash :: Uint256
  verificationHash :: Uint256
  Trimmed :: bool

definition NewTrimmedTX :: "Uint256 \<Rightarrow> ('a, 'c, 'w) Transaction" where
  "NewTrimmedTX h =
     \<lparr>Version = 0, Nonce = 0, Sender = 0, SystemFee = 0, NetworkFeeT = 0,
      ValidUntilBlock = 0, Script = [], Attributes = [], Cosigners = [], Scripts = [],
      Network = 0, hash = h, verificationHash = 0, Trimmed = True\<rparr>"

text \<open>\<open>New\<close>; the random nonce is the argument \<open>rnd\<close>.\<close>

definition New :: "32 word \<Rightarrow> 32 word \<Rightarrow> 8 word list \<Rightarrow> 64 word \<Rightarrow> ('a, 'c, 'w) Transaction" where
  "New rnd network script gas =
     \<lparr>Version = 0, Nonce = rnd, Sender = 0, SystemFee = gas, NetworkFeeT = 0,
      ValidUntilBlock = 0, Script = script, Attributes = [], Cosigners = [], Scripts = [],
      Network = network, hash = 0, verificationHash = 0, Trimmed = False\<rparr>"

definition encodeHashableFields ::
  "('a, 'c) Externals \<Rightarrow> ('a, 'c, 'w) Transaction \<Rightarrow> BinWriter \<Rightarrow> BinWriter" where
  "encodeHashableFields x t bw =
     (if length (Script t) = 0 then bw\<lparr>Err := Some ''transaction has no script''\<rparr>
      else
        (let bw1 = WriteB x (Version t) bw;
             bw2 = WriteU32LE x (Nonce t) bw1;
             bw3 = Uint160_EncodeBinary x (Sender t) bw2;
             bw4 = WriteU64LE x (SystemFee t) bw3;
             bw5 = WriteU64LE x (NetworkFeeT t) bw4;
             bw6 = WriteU32LE x (ValidUntilBlock t) bw5;
             bw7 = WriteAttributes x (Attributes t) bw6;
             bw8 = WriteCosigners x (Cosigners t) bw7
         in WriteVarBytes x (Script t) bw8))"

text \<open>
  \<open>GetSignedPart\<close>; \<open>None\<close> is the nil slice, which is also what the bytes of an empty
  buffer are.
\<close>

definition GetSignedPart :: "('a, 'c) Externals \<Rightarrow> ('a, 'c, 'w) Transaction \<Rightarrow> 8 word list option" where
  "GetSignedPart x t =
     (let buf0 = WriteU32LE x (Network t) NewBufBinWriter;
          buf1 = encodeHashableFields x t buf0
      in if Err buf1 \<noteq> None then None
         else if buf buf1 = [] then None
         else Some (buf buf1))"

definition updateHashes ::
  "('a, 'c) Externals \<Rightarrow> 8 word list \<Rightarrow> ('a, 'c, 'w) Transaction \<Rightarrow> ('a, 'c, 'w) Transaction" where
  "updateHashes x b t =
     (let t1 = t\<lparr>verificationHash := Sha256 x b\<rparr>
      in t1\<lparr>hash := Sha256 x (BytesBE x (verificationHash t1))\<rparr>)"

definition createHash ::
  "('a, 'c) Externals \<Rightarrow> ('a, 'c, 'w) Transaction \<Rightarrow> string option \<times> ('a, 'c, 'w) Transaction" where
  "createHash x t =
     (case GetSignedPart x t of
        None \<Rightarrow> (Some ''failed to serialize hashable data'', t)
      | Some b \<Rightarrow> (None, updateHashes x b t))"

definition Hash ::
  "('a, 'c) Externals \<Rightarrow> ('a, 'c, 'w) Transaction \<Rightarrow> (Uint256 \<times> ('a, 'c, 'w) Transaction) result" where
  "Hash x t =
     (if hash t = 0 then
        (case createHash x t of
           (Some e, t1) \<Rightarrow> Panic ''failed to compute hash!''
         | (None, t1) \<Rightarrow> Ok (hash t1, t1))
      else Ok (hash t, t))"

definition VerificationHash ::
  "('a, 'c) Externals \<Rightarrow> ('a, 'c, 'w) Transaction \<Rightarrow> (Uint256 \<times> ('a, 'c, 'w) Transaction) result" where
  "VerificationHash x t =
     (if verificationHash t = 0 then
        (case createHash x t of
           (Some e, t1) \<Rightarrow> Panic ''failed to compute hash!''
         | (None, t1) \<Rightarrow> Ok (verificationHash t1, t1))
      else Ok (verificationHash t, t))"

section \<open>Integer arithmetic of the interpreter\<close>

text \<open>
  Modelled from the spec: the handlers \<open>Add\<close>, \<open>Sub\<close>, \<open>Mul\<close> and \<open>Div\<close> that \<open>opFunc\<close>
  registers, whose bodies are not part of the files modelled. By the spec an arithmetic opcode pops its two
  integer operands, computes the arbitrary-precision result, and faults with
  ArithmeticOverflow when the result exceeds the maximum bit width instead of letting
  the integer grow; too few operands are a stack underflow. The maximum bit width is
  the parameter \<open>w\<close> (two's complement, so a result fits when it lies in
  \<open>[-2^(w-1), 2^(w-1))\<close>); the head of the list is the top of the stack, and the second
  operand is popped first. The spec names no fault for a zero divisor; it is a fault of
  its own here.
\<close>

datatype VMFault = StackUnderflow | ArithmeticOverflow | DivisionByZero

datatype ArithOp = ADD | SUB | MUL | DIV

definition fitsBits :: "nat \<Rightarrow> int \<Rightarrow> bool" where
  "fitsBits w v = (- (2 ^ (w - 1)) \<le> v \<and> v < 2 ^ (w - 1))"

fun applyArith :: "ArithOp \<Rightarrow> int \<Rightarrow> int \<Rightarrow> int" where
  "applyArith ADD a b = a + b"
| "applyArith SUB a b = a - b"
| "applyArith MUL a b = a * b"
| "applyArith DIV a b = a sdiv b"

fun execArith :: "nat \<Rightarrow> ArithOp \<Rightarrow> int list \<Rightarrow> VMFault + int list" where
  "execArith w opc (b # a # rest) =
     (if opc = DIV \<and> b = 0 then Inl DivisionByZero
      else if fitsBits w (applyArith opc a b) then Inr (applyArith opc a b # rest)
      else Inl ArithmeticOverflow)"
| "execArith w opc _ = Inl StackUnderflow"

section \<open>Notions used in the statements about the pool\<close>

text \<open>The pools that the exported operations build from a new pool.\<close>

inductive reachable :: "Pool \<Rightarrow> bool" where
  reach_new: "reachable (NewMemPool c)"
| reach_add: "reachable mp \<Longrightarrow> reachable (snd (Add t fee now mp))"
| reach_remove: "reachable mp \<Longrightarrow> reachable (Remove h mp)"
| reach_stale: "reachable mp \<Longrightarrow> reachable (RemoveStale isOK mp)"

text \<open>Two transactions share an input.\<close>

definition sharesInput :: "PoolTx \<Rightarrow> PoolTx \<Rightarrow> bool" where
  "sharesInput t u = (set (Inputs t) \<inter> set (Inputs u) \<noteq> {})"



text \<open>
  The priority of an item as a tuple ordered lexicographically: high priority before low,
  among low-priority items a claim transaction first, then the fee per byte, the network
  fee, and the hash in descending order.
\<close>

definition prioKey :: "item \<Rightarrow> bool \<times> bool \<times> int \<times> int \<times> int" where
  "prioKey p =
     (\<not> isLowPrio p, isLowPrio p \<and> Type (txn p) = ClaimType, perByteFee p, netFee p,
      - uint (TxHash (txn p)))"


section \<open>Example values\<close>

text \<open>A transaction of another type than claim, with the given hash and inputs.\<close>

definition exTx :: "Uint256 \<Rightarrow> Input list \<Rightarrow> PoolTx" where
  "exTx h ins = \<lparr>Type = OtherType 0x80, Inputs = ins, txHash = h\<rparr>"

text \<open>A fee policy: the fee per byte is the hash read as a number, nothing is low priority.\<close>

definition exFeer :: Feer where
  "exFeer = \<lparr>FeePerByte = (\<lambda>t. uint (txHash t)), NetworkFee = (\<lambda>t. 1),
             IsLowPriority = (\<lambda>f. False)\<rparr>"

definition exInput :: "nat \<Rightarrow> Input" where
  "exInput k = \<lparr>PrevHash = 7, PrevIndex = of_nat k\<rparr>"

text \<open>
  Externals for the examples: writers that append little-endian bytes unless an error is
  pending (a one-byte count before a byte string or an array), the 20 bytes of the sender
  and the 32 bytes of a hash in big-endian order, and a stand-in for SHA-256 that depends
  on every byte of its input and on their order.
\<close>

definition exAppend :: "8 word list \<Rightarrow> BinWriter \<Rightarrow> BinWriter" where
  "exAppend bs w = (if Err w \<noteq> None then w else w\<lparr>buf := buf w @ bs\<rparr>)"

definition exLE :: "nat \<Rightarrow> 'a::len word \<Rightarrow> 8 word list" where
  "exLE k v = map (\<lambda>i. ucast (drop_bit (8 * i) v)) [0..<k]"

definition exBE :: "nat \<Rightarrow> 'a::len word \<Rightarrow> 8 word list" where
  "exBE k v = rev (exLE k v)"

definition exSha :: "8 word list \<Rightarrow> Uint256" where
  "exSha b = foldl (\<lambda>h v. h * 31 + ucast v + 1) 7 b"

definition exExternals :: "(unit, unit) Externals" where
  "exExternals =
     \<lparr>Sha256 = exSha,
      BytesBE = exBE 32,
      WriteB = (\<lambda>b. exAppend [b]),
      WriteU32LE = (\<lambda>v. exAppend (exLE 4 v)),
      WriteU64LE = (\<lambda>v. exAppend (exLE 8 v)),
      WriteVarBytes = (\<lambda>b. exAppend (of_nat (length b) # b)),
      Uint160_EncodeBinary = (\<lambda>v. exAppend (exBE 20 v)),
      WriteAttributes = (\<lambda>xs. exAppend [of_nat (length xs)]),
      WriteCosigners = (\<lambda>xs. exAppend [of_nat (length xs)])\<rparr>"

text \<open>Two low-priority items: a claim transaction with a small fee, another with a larger one.\<close>

definition exClaimItem :: item where
  "exClaimItem =
     \<lparr>txn = \<lparr>Type = ClaimType, Inputs = [], txHash = 1\<rparr>, timeStamp = 0, perByteFee = 1,
      netFee = 0, isLowPrio = True\<rparr>"

definition exPlainItem :: item where
  "exPlainItem =
     \<lparr>txn = exTx 2 [], timeStamp = 0, perByteFee = 5, netFee = 0, isLowPrio = True\<rparr>"

definition exContext :: "int \<Rightarrow> Context" where
  "exContext i = \<lparr>ip = i, prog = [0x02, 0xAA, 0xBB, 0x00, 0x09], breakPoints = []\<rparr>"




definition exTransaction :: "(unit, unit, unit) Transaction" where
  "exTransaction = New 5 7 [0x51] 0"

text \<open>A transaction made with an empty script, and a trimmed one with the hash 42.\<close>

definition exNoScript :: "(unit, unit, unit) Transaction" where
  "exNoScript = New 5 7 [] 0"

definition exTrimmed :: "(unit, unit, unit) Transaction" where
  "exTrimmed = NewTrimmedTX 42"

text \<open>The signed part of \<open>exTransaction\<close> as \<open>exExternals\<close> writes it.\<close>

definition exSignedPart :: "8 word list" where
  "exSignedPart =
     [0x07, 0x00, 0x00, 0x00] @ [0x00] @ [0x05, 0x00, 0x00, 0x00] @ replicate 20 0x00
     @ replicate 8 0x00 @ replicate 8 0x00 @ [0x00, 0x00, 0x00, 0x00] @ [0x00] @ [0x00]
     @ [0x01, 0x51]"



text \<open>A pool of capacity 1 that holds the transaction with hash 10.\<close>

definition exPoolFull :: Pool where
  "exPoolFull = snd (Add (exTx 10 []) exFeer 0 (NewMemPool 1))"

text \<open>A pool of capacity 2 that holds the transactions with hashes 10 and 1.\<close>

definition exPoolTwo :: Pool where
  "exPoolTwo = snd (Add (exTx 1 []) exFeer 1 (snd (Add (exTx 10 []) exFeer 0 (NewMemPool 2))))"


text \<open>An item with the given priority bucket, type, fees and hash.\<close>

definition exItem :: "bool \<Rightarrow> TXType \<Rightarrow> Fixed8 \<Rightarrow> Fixed8 \<Rightarrow> Uint256 \<Rightarrow> item" where
  "exItem low ty fpb nf h =
     \<lparr>txn = \<lparr>Type = ty, Inputs = [], txHash = h\<rparr>, timeStamp = 0, perByteFee = fpb,
      netFee = nf, isLowPrio = low\<rparr>"

text \<open>No two items of a list share an input.\<close>

definition noSharedInputs :: "item list \<Rightarrow> bool" where
  "noSharedInputs s = sorted_wrt (\<lambda>a b. \<not> sharesInput (txn a) (txn b)) s"




text \<open>A pool that holds a transaction with two inputs, and one that holds a second one too.\<close>

definition exPoolIn :: Pool where
  "exPoolIn = snd (Add (exTx 10 [exInput 0, exInput 1]) exFeer 0 (NewMemPool 2))"

definition exPoolTwoIn :: Pool where
  "exPoolTwoIn = snd (Add (exTx 1 [exInput 2]) exFeer 1 exPoolIn)"


section \<open>The order of pool items\<close>

lemma Uint256_CompareTo_uint:
  "Uint256_CompareTo u v = (if uint u < uint v then - 1 else if uint u = uint v then 0 else 1)"
  by (simp add: Uint256_CompareTo_def word_less_def word_uint_eq_iff)



lemma CompareTo_zero_iff: "CompareTo p (Some q) = 0 \<longleftrightarrow> prioKey p = prioKey q"
  by (auto simp: CompareTo_def prioKey_def Fixed8_CompareTo_def Uint256_CompareTo_uint
      less_prod_def TxHash_def split: if_splits)



text \<open>
  Claim C4, as stated, fails: of two low-priority items the claim transaction sorts
  first although the other item pays the higher fee per byte.
\<close>

theorem CompareTo_claim_counterexample:
  "isLowPrio exClaimItem = isLowPrio exPlainItem
   \<and> perByteFee exClaimItem < perByteFee exPlainItem
   \<and> CompareTo exClaimItem (Some exPlainItem) > 0"
  by (simp add: exClaimItem_def exPlainItem_def CompareTo_def exTx_def)

text \<open>
  Claim C4, amended. The relative priority of two pool items is determined exactly by:
  a low-priority item sorts below a high-priority one; of two low-priority items a claim
  transaction sorts above a transaction of any other type; among items of the same bucket
  (and, when low priority, the same side of the claim rule) the higher fee per byte sorts
  first, then the higher network fee, then the lower hash; items equal in all of these
  compare equal. Nothing else (time of arrival, inputs, the exact type) influences the
  order: items that agree on these attributes compare the same.
\<close>

theorem CompareTo_order:
  "(isLowPrio p \<and> \<not> isLowPrio q \<longrightarrow> CompareTo p (Some q) < 0)
   \<and> (\<not> isLowPrio p \<and> isLowPrio q \<longrightarrow> CompareTo p (Some q) > 0)
   \<and> (isLowPrio p \<and> isLowPrio q \<and> Type (txn p) = ClaimType \<and> Type (txn q) \<noteq> ClaimType
        \<longrightarrow> CompareTo p (Some q) > 0 \<and> CompareTo q (Some p) < 0)
   \<and> (isLowPrio p = isLowPrio q
        \<and> (isLowPrio p \<longrightarrow> (Type (txn p) = ClaimType) = (Type (txn q) = ClaimType))
        \<longrightarrow> (perByteFee p > perByteFee q \<longrightarrow> CompareTo p (Some q) > 0 \<and> CompareTo q (Some p) < 0)
          \<and> (perByteFee p = perByteFee q \<and> netFee p > netFee q
                \<longrightarrow> CompareTo p (Some q) > 0 \<and> CompareTo q (Some p) < 0)
          \<and> (perByteFee p = perByteFee q \<and> netFee p = netFee q
                \<and> TxHash (txn p) < TxHash (txn q)
                \<longrightarrow> CompareTo p (Some q) > 0 \<and> CompareTo q (Some p) < 0)
          \<and> (perByteFee p = perByteFee q \<and> netFee p = netFee q
                \<and> TxHash (txn p) = TxHash (txn q)
                \<longrightarrow> CompareTo p (Some q) = 0))
   \<and> (isLowPrio p = isLowPrio p' \<and> isLowPrio q = isLowPrio q'
        \<and> (Type (txn p) = ClaimType) = (Type (txn p') = ClaimType)
        \<and> (Type (txn q) = ClaimType) = (Type (txn q') = ClaimType)
        \<and> perByteFee p = perByteFee p' \<and> perByteFee q = perByteFee q'
        \<and> netFee p = netFee p' \<and> netFee q = netFee q'
        \<and> TxHash (txn p) = TxHash (txn p') \<and> TxHash (txn q) = TxHash (txn q')
        \<longrightarrow> CompareTo p (Some q) = CompareTo p' (Some q'))"
  by (auto simp: CompareTo_def Fixed8_CompareTo_def Uint256_CompareTo_uint word_less_def)

theorem CompareTo_order_witness:
  "CompareTo (exItem True (OtherType 0) 9 9 1) (Some (exItem False (OtherType 0) 1 1 2)) < 0
   \<and> CompareTo (exItem False (OtherType 0) 1 1 2) (Some (exItem True (OtherType 0) 9 9 1)) > 0
   \<and> CompareTo exClaimItem (Some exPlainItem) > 0
   \<and> CompareTo (exItem False (OtherType 0) 5 1 9) (Some (exItem False ClaimType 4 7 1)) > 0
   \<and> CompareTo (exItem True ClaimType 5 3 9) (Some (exItem True ClaimType 5 2 1)) > 0
   \<and> CompareTo (exItem False (OtherType 0) 5 3 1) (Some (exItem False (OtherType 0) 5 3 2)) > 0
   \<and> CompareTo (exItem False (OtherType 0) 5 3 1) (Some (exItem False ClaimType 5 3 1)) = 0
   \<and> CompareTo (exItem True (OtherType 1) 5 3 1) (Some exPlainItem)
       = CompareTo (exItem True (OtherType 2) 5 3 1) (Some exPlainItem)"
  using
    CompareTo_order[of "exItem True (OtherType 0) 9 9 1" "exItem False (OtherType 0) 1 1 2"
      "exItem True (OtherType 0) 9 9 1" "exItem False (OtherType 0) 1 1 2"]
    CompareTo_order[of "exItem False (OtherType 0) 1 1 2" "exItem True (OtherType 0) 9 9 1"
      "exItem False (OtherType 0) 1 1 2" "exItem True (OtherType 0) 9 9 1"]
    CompareTo_order[of exClaimItem exPlainItem exClaimItem exPlainItem]
    CompareTo_order[of "exItem False (OtherType 0) 5 1 9" "exItem False ClaimType 4 7 1"
      "exItem False (OtherType 0) 5 1 9" "exItem False ClaimType 4 7 1"]
    CompareTo_order[of "exItem True ClaimType 5 3 9" "exItem True ClaimType 5 2 1"
      "exItem True ClaimType 5 3 9" "exItem True ClaimType 5 2 1"]
    CompareTo_order[of "exItem False (OtherType 0) 5 3 1" "exItem False (OtherType 0) 5 3 2"
      "exItem False (OtherType 0) 5 3 1" "exItem False (OtherType 0) 5 3 2"]
    CompareTo_order[of "exItem False (OtherType 0) 5 3 1" "exItem False ClaimType 5 3 1"
      "exItem False (OtherType 0) 5 3 1" "exItem False ClaimType 5 3 1"]
    CompareTo_order[of "exItem True (OtherType 1) 5 3 1" exPlainItem
      "exItem True (OtherType 2) 5 3 1" exPlainItem]
  by (simp add: exItem_def exClaimItem_def exPlainItem_def exTx_def TxHash_def)


section \<open>Errors of Add and the membership test\<close>

lemma Add_conflict: "\<not> verifyInputs mp t \<Longrightarrow> Add t fee now mp = (Some ErrConflict, mp)"
  by (simp add: Add_def Let_def)

lemma Add_dup:
  "verifyInputs mp t \<Longrightarrow> containsKey mp (TxHash t) \<Longrightarrow> Add t fee now mp = (Some ErrDup, mp)"
  by (simp add: Add_def Let_def)

text \<open>
  Claim C5: when \<open>Add\<close> returns an error the pool is unchanged, and \<open>ContainsKey\<close> is true
  exactly for the transactions held. The conflict and duplicate errors leave the pool as
  it was (\<open>Add_conflict\<close>, \<open>Add_dup\<close>). The out-of-memory error does not: \<open>Add\<close> enters
  the hash in \<open>verifiedMap\<close> before it looks at the capacity and returns without taking
  it out. Here a pool of capacity 1 holds the transaction with hash 10; adding the
  cheaper transaction with hash 1 returns \<open>ErrOOM\<close>, the list of transactions and the
  count are as before, and yet \<open>ContainsKey\<close> is now true of hash 1.
\<close>

theorem Add_oom_keeps_hash_in_map:
  "fst (Add (exTx 1 []) exFeer 1 exPoolFull) = Some ErrOOM
   \<and> \<not> ContainsKey exPoolFull 1
   \<and> ContainsKey (snd (Add (exTx 1 []) exFeer 1 exPoolFull)) (TxHash (exTx 1 []))
   \<and> GetVerifiedTransactions exPoolFull = [exTx 10 []]
   \<and> GetVerifiedTransactions (snd (Add (exTx 1 []) exFeer 1 exPoolFull)) = [exTx 10 []]
   \<and> Count (snd (Add (exTx 1 []) exFeer 1 exPoolFull)) = Count exPoolFull"
  by code_simp

section \<open>Remove\<close>

text \<open>
  Claim C6: \<open>Remove(h)\<close> removes exactly the transaction with hash \<open>h\<close>. The code takes
  \<open>h\<close> out of \<open>verifiedMap\<close> but cuts the slice at the \<open>num\<close> declared before the loop,
  which the loop never assigns: the first item goes, whatever its hash. Here the pool
  holds the transactions with hashes 10 and 1, in this order; after \<open>Remove\<close> of hash 1
  the transaction with hash 1 is still listed and the one with hash 10 is gone, while
  \<open>ContainsKey\<close> says the opposite.
\<close>

theorem Remove_cuts_first_item:
  "GetVerifiedTransactions exPoolTwo = [exTx 10 [], exTx 1 []]
   \<and> ContainsKey exPoolTwo 1
   \<and> GetVerifiedTransactions (Remove 1 exPoolTwo) = [exTx 1 []]
   \<and> \<not> ContainsKey (Remove 1 exPoolTwo) 1
   \<and> ContainsKey (Remove 1 exPoolTwo) 10"
  by code_simp

section \<open>Fetching instructions and operands\<close>

text \<open>
  Claim C10: \<open>Next\<close> moves the instruction pointer on by one; when the pointer has then
  reached or passed the end of the program it returns \<open>RET\<close>, and otherwise it returns the
  opcode byte at the new position.
\<close>

theorem Next_implicit_RET:
  "(int (length (prog c)) \<le> ip c + 1 \<longrightarrow> Next RET c = Ok (RET, c\<lparr>ip := ip c + 1\<rparr>))
   \<and> (- 1 \<le> ip c \<and> ip c + 1 < int (length (prog c))
        \<longrightarrow> Next RET c = Ok (prog c ! nat (ip c + 1), c\<lparr>ip := ip c + 1\<rparr>))"
  by (simp add: Next_def Let_def)

theorem Next_implicit_RET_witness:
  "Next 0x66 (exContext 4) = Ok (0x66, exContext 5)
   \<and> Next 0x66 (exContext 7) = Ok (0x66, exContext 8)
   \<and> Next 0x66 (exContext 0) = Ok (0xAA, exContext 1)"
  using Next_implicit_RET[of "exContext 4" "0x66"] Next_implicit_RET[of "exContext 7" "0x66"]
    Next_implicit_RET[of "exContext 0" "0x66"]
  by (simp add: exContext_def)

lemma readByte_ok:
  "0 \<le> IP c \<Longrightarrow> IP c + 1 \<le> int (length (prog c))
     \<Longrightarrow> readByte c = Ok (prog c ! nat (IP c), c\<lparr>ip := ip c + 1\<rparr>)"
  by (auto simp: readByte_def readBytes_def Let_def slice_def take_Suc_conv_app_nth
      hd_drop_conv_nth take_Suc)

lemma reads_bounds:
  "(IP c + 4 > int (length (prog c)) \<longrightarrow> readUint32 c = Panic ''failed to read uint32 parameter'')
   \<and> (IP c + 2 > int (length (prog c)) \<longrightarrow> readUint16 c = Panic ''failed to read uint16 parameter'')
   \<and> (IP c + n > int (length (prog c)) \<longrightarrow> readBytes n c = Ok (None, c))
   \<and> (IP c + 1 > int (length (prog c))
        \<longrightarrow> readByte c = Panic ''index out of range'' \<and> readVarBytes c = Panic ''index out of range'')
   \<and> (0 \<le> IP c \<and> IP c + 4 \<le> int (length (prog c))
        \<longrightarrow> readUint32 c
            = Ok (LittleEndian_Uint32 (take 4 (drop (nat (IP c)) (prog c))), c\<lparr>ip := ip c + 4\<rparr>))
   \<and> (0 \<le> IP c \<and> IP c + 2 \<le> int (length (prog c))
        \<longrightarrow> readUint16 c
            = Ok (LittleEndian_Uint16 (take 2 (drop (nat (IP c)) (prog c))), c\<lparr>ip := ip c + 2\<rparr>))
   \<and> (0 \<le> IP c \<and> 0 \<le> n \<and> IP c + n \<le> int (length (prog c))
        \<longrightarrow> readBytes n c
            = Ok (Some (take (nat n) (drop (nat (IP c)) (prog c))), c\<lparr>ip := ip c + n\<rparr>))
   \<and> (IP c < 0 \<and> IP c + 4 \<le> int (length (prog c))
        \<longrightarrow> readUint32 c = Panic ''slice bounds out of range'')
   \<and> (IP c < 0 \<and> IP c + 2 \<le> int (length (prog c))
        \<longrightarrow> readUint16 c = Panic ''slice bounds out of range'')"
  by (simp add: readUint32_def readUint16_def readBytes_def readByte_def readVarBytes_def
      Let_def slice_def)

lemma readVarBytes_cases:
  assumes "0 \<le> IP c" and "IP c + 1 \<le> int (length (prog c))"
  shows "(IP c + 1 + uint (prog c ! nat (IP c)) > int (length (prog c))
          \<longrightarrow> readVarBytes c = Ok (None, c\<lparr>ip := ip c + 1\<rparr>))
     \<and> (IP c + 1 + uint (prog c ! nat (IP c)) \<le> int (length (prog c))
          \<longrightarrow> readVarBytes c
              = Ok (Some (take (unat (prog c ! nat (IP c))) (drop (nat (IP c) + 1) (prog c))),
                    c\<lparr>ip := ip c + 1 + uint (prog c ! nat (IP c))\<rparr>))"
proof -
  have rb: "readByte c = Ok (prog c ! nat (IP c), c\<lparr>ip := ip c + 1\<rparr>)"
    using assms by (rule readByte_ok)
  have n: "nat (ip c + 1 + 1) = nat (IP c) + 1" using assms(1) by (simp add: IP_def nat_add_distrib)
  show ?thesis
    using assms n unfolding readVarBytes_def rb
    by (simp add: readBytes_def Let_def IP_def slice_def)
qed

text \<open>
  Claim C2: every read of a multi-byte immediate operand compares the end of the read
  with the length of the program before it touches the buffer. When the read would run
  past the end, the 2-byte and the 4-byte read raise a Go panic, the read of \<open>n\<close> bytes
  returns the nil slice, and the length-prefixed read panics when its length byte is
  missing and returns the nil slice when its payload is short. The step of the
  interpreter answers each of these with the Fault state; the context stays where the
  failed read left it (unmoved, or just past the length byte). A read that stays within
  the buffer does not fault: it returns the bytes at the instruction pointer
  (little-endian for the 2-byte and the 4-byte read, the payload after the length byte
  for the length-prefixed read) and moves the pointer past them. The 2-byte and the
  4-byte read at a negative position fault as well.
\<close>

theorem out_of_bounds_read_faults:
  "(IP c + 2 > int (length (prog c)) \<longrightarrow> execRead readUint16 c = (faultState, None, c))
   \<and> (IP c + 4 > int (length (prog c)) \<longrightarrow> execRead readUint32 c = (faultState, None, c))
   \<and> (IP c + n > int (length (prog c))
        \<longrightarrow> execReadBytes (readBytes n) c = (faultState, None, c))
   \<and> (IP c + 1 > int (length (prog c))
        \<longrightarrow> execReadBytes readVarBytes c = (faultState, None, c))
   \<and> (0 \<le> IP c \<and> IP c + 1 \<le> int (length (prog c))
        \<and> IP c + 1 + uint (prog c ! nat (IP c)) > int (length (prog c))
        \<longrightarrow> execReadBytes readVarBytes c = (faultState, None, c\<lparr>ip := ip c + 1\<rparr>))
   \<and> (0 \<le> IP c \<and> IP c + 2 \<le> int (length (prog c))
        \<longrightarrow> execRead readUint16 c
            = (noneState, Some (LittleEndian_Uint16 (take 2 (drop (nat (IP c)) (prog c)))),
               c\<lparr>ip := ip c + 2\<rparr>))
   \<and> (0 \<le> IP c \<and> IP c + 4 \<le> int (length (prog c))
        \<longrightarrow> execRead readUint32 c
            = (noneState, Some (LittleEndian_Uint32 (take 4 (drop (nat (IP c)) (prog c)))),
               c\<lparr>ip := ip c + 4\<rparr>))
   \<and> (0 \<le> IP c \<and> 0 \<le> n \<and> IP c + n \<le> int (length (prog c))
        \<longrightarrow> execReadBytes (readBytes n) c
            = (noneState, Some (take (nat n) (drop (nat (IP c)) (prog c))), c\<lparr>ip := ip c + n\<rparr>))
   \<and> (0 \<le> IP c \<and> IP c + 1 + uint (prog c ! nat (IP c)) \<le> int (length (prog c))
        \<longrightarrow> execReadBytes readVarBytes c
            = (noneState,
               Some (take (unat (prog c ! nat (IP c))) (drop (nat (IP c) + 1) (prog c))),
               c\<lparr>ip := ip c + 1 + uint (prog c ! nat (IP c))\<rparr>))
   \<and> (IP c < 0 \<longrightarrow> execRead readUint16 c = (faultState, None, c)
                     \<and> execRead readUint32 c = (faultState, None, c))"
proof -
  have v: "0 \<le> IP c \<and> IP c + 1 \<le> int (length (prog c))
      \<longrightarrow> (IP c + 1 + uint (prog c ! nat (IP c)) > int (length (prog c))
          \<longrightarrow> readVarBytes c = Ok (None, c\<lparr>ip := ip c + 1\<rparr>))
     \<and> (IP c + 1 + uint (prog c ! nat (IP c)) \<le> int (length (prog c))
          \<longrightarrow> readVarBytes c
              = Ok (Some (take (unat (prog c ! nat (IP c))) (drop (nat (IP c) + 1) (prog c))),
                    c\<lparr>ip := ip c + 1 + uint (prog c ! nat (IP c))\<rparr>))"
    using readVarBytes_cases[of c] by blast
  have le: "0 \<le> IP c \<and> IP c + 1 + uint (prog c ! nat (IP c)) \<le> int (length (prog c))
      \<longrightarrow> IP c + 1 \<le> int (length (prog c))"
    by (smt (verit) uint_ge_0)
  note R = reads_bounds[of c n]
  have u32o: "IP c + 4 > int (length (prog c)) \<longrightarrow> execRead readUint32 c = (faultState, None, c)"
    using R by (simp add: execRead_def)
  have u16o: "IP c + 2 > int (length (prog c)) \<longrightarrow> execRead readUint16 c = (faultState, None, c)"
    using R by (simp add: execRead_def)
  have rbo: "IP c + n > int (length (prog c))
      \<longrightarrow> execReadBytes (readBytes n) c = (faultState, None, c)"
    using R by (simp add: execReadBytes_def)
  have vbo: "IP c + 1 > int (length (prog c))
      \<longrightarrow> execReadBytes readVarBytes c = (faultState, None, c)"
    using R by (simp add: execReadBytes_def)
  have vbs: "0 \<le> IP c \<and> IP c + 1 \<le> int (length (prog c))
        \<and> IP c + 1 + uint (prog c ! nat (IP c)) > int (length (prog c))
        \<longrightarrow> execReadBytes readVarBytes c = (faultState, None, c\<lparr>ip := ip c + 1\<rparr>)"
    using v by (simp add: execReadBytes_def)
  have u16i: "0 \<le> IP c \<and> IP c + 2 \<le> int (length (prog c))
        \<longrightarrow> execRead readUint16 c
            = (noneState, Some (LittleEndian_Uint16 (take 2 (drop (nat (IP c)) (prog c)))),
               c\<lparr>ip := ip c + 2\<rparr>)"
    using R by (simp add: execRead_def)
  have u32i: "0 \<le> IP c \<and> IP c + 4 \<le> int (length (prog c))
        \<longrightarrow> execRead readUint32 c
            = (noneState, Some (LittleEndian_Uint32 (take 4 (drop (nat (IP c)) (prog c)))),
               c\<lparr>ip := ip c + 4\<rparr>)"
    using R by (simp add: execRead_def)
  have rbi: "0 \<le> IP c \<and> 0 \<le> n \<and> IP c + n \<le> int (length (prog c))
        \<longrightarrow> execReadBytes (readBytes n) c
            = (noneState, Some (take (nat n) (drop (nat (IP c)) (prog c))), c\<lparr>ip := ip c + n\<rparr>)"
    using R by (simp add: execReadBytes_def)
  have vbi: "0 \<le> IP c \<and> IP c + 1 + uint (prog c ! nat (IP c)) \<le> int (length (prog c))
        \<longrightarrow> execReadBytes readVarBytes c
            = (noneState,
               Some (take (unat (prog c ! nat (IP c))) (drop (nat (IP c) + 1) (prog c))),
               c\<lparr>ip := ip c + 1 + uint (prog c ! nat (IP c))\<rparr>)"
    using v le by (simp add: execReadBytes_def)
  have n16: "IP c < 0 \<longrightarrow> execRead readUint16 c = (faultState, None, c)"
  proof (cases "IP c + 2 > int (length (prog c))")
    case True then show ?thesis using u16o by simp
  next
    case False then show ?thesis using R by (simp add: execRead_def)
  qed
  have n32: "IP c < 0 \<longrightarrow> execRead readUint32 c = (faultState, None, c)"
  proof (cases "IP c + 4 > int (length (prog c))")
    case True then show ?thesis using u32o by simp
  next
    case False then show ?thesis using R by (simp add: execRead_def)
  qed
  show ?thesis
    using u16o u32o rbo vbo vbs u16i u32i rbi vbi n16 n32 by blast
qed

theorem out_of_bounds_read_faults_witness:
  "execRead readUint16 (exContext 3) = (faultState, None, exContext 3)
   \<and> execRead readUint32 (exContext 2) = (faultState, None, exContext 2)
   \<and> execReadBytes (readBytes 3) (exContext 2) = (faultState, None, exContext 2)
   \<and> execReadBytes readVarBytes (exContext 4) = (faultState, None, exContext 4)
   \<and> execReadBytes readVarBytes (exContext 3) = (faultState, None, exContext 4)
   \<and> execRead readUint16 (exContext (- 1)) = (noneState, Some 0xAA02, exContext 1)
   \<and> execRead readUint32 (exContext (- 1)) = (noneState, Some 0x00BBAA02, exContext 3)
   \<and> execReadBytes (readBytes 2) (exContext 0) = (noneState, Some [0xAA, 0xBB], exContext 2)
   \<and> execReadBytes readVarBytes (exContext (- 1)) = (noneState, Some [0xAA, 0xBB], exContext 2)
   \<and> execRead readUint16 (exContext (- 3)) = (faultState, None, exContext (- 3))"
proof -
  have a: "LittleEndian_Uint32 [0x02, 0xAA, 0xBB, 0x00] = 0x00BBAA02" by code_simp
  have b: "LittleEndian_Uint16 [0x02, 0xAA] = 0xAA02" by code_simp
  show ?thesis
    using out_of_bounds_read_faults[of "exContext 3" 0] out_of_bounds_read_faults[of "exContext 2" 3] out_of_bounds_read_faults[of "exContext 4" 0]
      out_of_bounds_read_faults[of "exContext (- 1)" 0] out_of_bounds_read_faults[of "exContext 0" 2] out_of_bounds_read_faults[of "exContext (- 3)" 0] a b
    by (simp add: exContext_def IP_def)
qed

section \<open>The value of the storage iterator\<close>









section \<open>The hashes of a transaction\<close>

lemma GetSignedPart_updateHashes: "GetSignedPart x (updateHashes x b t) = GetSignedPart x t"
  by (simp add: GetSignedPart_def updateHashes_def encodeHashableFields_def Let_def)

lemma GetSignedPart_no_script: "Script t = [] \<Longrightarrow> GetSignedPart x t = None"
  by (simp add: GetSignedPart_def encodeHashableFields_def Let_def)

lemma GetSignedPart_script:
  assumes "Script t \<noteq> []"
    and "bw = WriteVarBytes x (Script t)
           (WriteCosigners x (Cosigners t)
             (WriteAttributes x (Attributes t)
               (WriteU32LE x (ValidUntilBlock t)
                 (WriteU64LE x (NetworkFeeT t)
                   (WriteU64LE x (SystemFee t)
                     (Uint160_EncodeBinary x (Sender t)
                       (WriteU32LE x (Nonce t)
                         (WriteB x (Version t)
                           (WriteU32LE x (Network t) NewBufBinWriter)))))))))"
  shows "GetSignedPart x t = (if Err bw \<noteq> None \<or> buf bw = [] then None else Some (buf bw))"
  using assms by (simp add: GetSignedPart_def encodeHashableFields_def Let_def)

lemma Hash_set: "hash t \<noteq> 0 \<Longrightarrow> Hash x t = Ok (hash t, t)"
  by (simp add: Hash_def)

lemma VerificationHash_set:
  "verificationHash t \<noteq> 0 \<Longrightarrow> VerificationHash x t = Ok (verificationHash t, t)"
  by (simp add: VerificationHash_def)

lemma Hash_fresh:
  assumes "GetSignedPart x t = Some b"
  shows "hash t = 0 \<Longrightarrow> Hash x t = Ok (Sha256 x (BytesBE x (Sha256 x b)), updateHashes x b t)"
    and "verificationHash t = 0 \<Longrightarrow> VerificationHash x t = Ok (Sha256 x b, updateHashes x b t)"
  using assms
  by (simp_all add: Hash_def VerificationHash_def createHash_def updateHashes_def Let_def)

lemma Hash_again:
  assumes "GetSignedPart x t = Some b"
  shows "Hash x (updateHashes x b t) = Ok (Sha256 x (BytesBE x (Sha256 x b)), updateHashes x b t)"
    and "VerificationHash x (updateHashes x b t) = Ok (Sha256 x b, updateHashes x b t)"
proof -
  have g: "GetSignedPart x (updateHashes x b t) = Some b"
    using assms by (simp add: GetSignedPart_updateHashes)
  have u: "updateHashes x b (updateHashes x b t) = updateHashes x b t"
    by (simp add: updateHashes_def Let_def)
  show "Hash x (updateHashes x b t) = Ok (Sha256 x (BytesBE x (Sha256 x b)), updateHashes x b t)"
    using g u by (simp add: Hash_def createHash_def) (simp add: updateHashes_def Let_def)
  show "VerificationHash x (updateHashes x b t) = Ok (Sha256 x b, updateHashes x b t)"
    using g u by (simp add: VerificationHash_def createHash_def) (simp add: updateHashes_def Let_def)
qed

lemma Hash_panics:
  assumes "GetSignedPart x t = None"
  shows "hash t = 0 \<Longrightarrow> Hash x t = Panic ''failed to compute hash!''"
    and "verificationHash t = 0 \<Longrightarrow> VerificationHash x t = Panic ''failed to compute hash!''"
  using assms by (simp_all add: Hash_def VerificationHash_def createHash_def)

text \<open>
  Claim C8, as stated, fails. A transaction without a script has no signed-part encoding
  and \<open>Hash()\<close> panics on it; a trimmed transaction, built from a hash alone, has no
  signed-part encoding either, and \<open>Hash()\<close> returns the hash it was built with.
\<close>

theorem Hash_not_every_transaction_counterexample:
  "Hash exExternals exNoScript = Panic ''failed to compute hash!''
   \<and> GetSignedPart exExternals exTrimmed = None
   \<and> Hash exExternals exTrimmed = Ok (42, exTrimmed)"
  by (simp add: exNoScript_def exTrimmed_def New_def NewTrimmedTX_def GetSignedPart_no_script
      Hash_panics Hash_set)

text \<open>
  Claim C8, amended. The signed-part encoding of a transaction is what the writer holds
  after the network magic (32 bits, little-endian), the version, the nonce, the sender,
  the system fee, the network fee, the valid-until block, the attributes, the cosigners
  and the script were written in this order. A transaction can be encoded when its
  script is not empty, the writer reports no error and the encoding is not empty.

  \<^item> \<open>Hash()\<close> of a transaction whose stored hash is set (not zero) returns the stored
    hash and \<open>VerificationHash()\<close> of a transaction whose stored verification hash is
    set returns the stored verification hash, both without computing anything; so a
    trimmed transaction built from a non-zero hash returns that hash.
  \<^item> \<open>Hash()\<close> of a transaction whose stored hash is zero and that can be encoded
    returns SHA-256 applied twice to the encoding (the second time to the big-endian
    bytes of the first digest); \<open>VerificationHash()\<close> of a transaction whose stored
    verification hash is zero and that can be encoded returns SHA-256 of the encoding.
    Either call stores both hashes, replacing whatever was stored.
  \<^item> After such a call the hashes do not change: both calls return the same two
    hashes again and leave the transaction as it is.
  \<^item> \<open>Hash()\<close> (\<open>VerificationHash()\<close>) of a transaction whose stored hash (stored
    verification hash) is zero and that cannot be encoded panics.
\<close>

theorem Hash_memoized:
  assumes "bw = WriteVarBytes x (Script t)
           (WriteCosigners x (Cosigners t)
             (WriteAttributes x (Attributes t)
               (WriteU32LE x (ValidUntilBlock t)
                 (WriteU64LE x (NetworkFeeT t)
                   (WriteU64LE x (SystemFee t)
                     (Uint160_EncodeBinary x (Sender t)
                       (WriteU32LE x (Nonce t)
                         (WriteB x (Version t)
                           (WriteU32LE x (Network t) NewBufBinWriter)))))))))"
  shows
    "(Script t \<noteq> [] \<and> Err bw = None \<and> buf bw \<noteq> []
        \<longrightarrow> GetSignedPart x t = Some (buf bw)
          \<and> (hash t = 0
              \<longrightarrow> Hash x t
                  = Ok (Sha256 x (BytesBE x (Sha256 x (buf bw))), updateHashes x (buf bw) t))
          \<and> (verificationHash t = 0
              \<longrightarrow> VerificationHash x t = Ok (Sha256 x (buf bw), updateHashes x (buf bw) t))
          \<and> hash (updateHashes x (buf bw) t) = Sha256 x (BytesBE x (Sha256 x (buf bw)))
          \<and> verificationHash (updateHashes x (buf bw) t) = Sha256 x (buf bw)
          \<and> Hash x (updateHashes x (buf bw) t)
              = Ok (Sha256 x (BytesBE x (Sha256 x (buf bw))), updateHashes x (buf bw) t)
          \<and> VerificationHash x (updateHashes x (buf bw) t)
              = Ok (Sha256 x (buf bw), updateHashes x (buf bw) t))
     \<and> (hash t \<noteq> 0 \<longrightarrow> Hash x t = Ok (hash t, t))
     \<and> (verificationHash t \<noteq> 0 \<longrightarrow> VerificationHash x t = Ok (verificationHash t, t))
     \<and> (hash t = 0 \<and> (Script t = [] \<or> Err bw \<noteq> None \<or> buf bw = [])
          \<longrightarrow> Hash x t = Panic ''failed to compute hash!'')
     \<and> (verificationHash t = 0 \<and> (Script t = [] \<or> Err bw \<noteq> None \<or> buf bw = [])
          \<longrightarrow> VerificationHash x t = Panic ''failed to compute hash!'')
     \<and> (h \<noteq> 0 \<longrightarrow> Hash x (NewTrimmedTX h :: ('a, 'b, 'c) Transaction) = Ok (h, NewTrimmedTX h))"
proof -
  have ok: "GetSignedPart x t = Some (buf bw)"
    if "Script t \<noteq> []" "Err bw = None" "buf bw \<noteq> []"
    using GetSignedPart_script[OF that(1) assms] that(2,3) by simp
  have bad: "GetSignedPart x t = None" if "Script t = [] \<or> Err bw \<noteq> None \<or> buf bw = []"
  proof (cases "Script t = []")
    case True then show ?thesis by (rule GetSignedPart_no_script)
  next
    case False
    then show ?thesis using GetSignedPart_script[OF False assms] that by auto
  qed
  have 1: "Script t \<noteq> [] \<and> Err bw = None \<and> buf bw \<noteq> []
        \<longrightarrow> GetSignedPart x t = Some (buf bw)
          \<and> (hash t = 0
              \<longrightarrow> Hash x t
                  = Ok (Sha256 x (BytesBE x (Sha256 x (buf bw))), updateHashes x (buf bw) t))
          \<and> (verificationHash t = 0
              \<longrightarrow> VerificationHash x t = Ok (Sha256 x (buf bw), updateHashes x (buf bw) t))
          \<and> hash (updateHashes x (buf bw) t) = Sha256 x (BytesBE x (Sha256 x (buf bw)))
          \<and> verificationHash (updateHashes x (buf bw) t) = Sha256 x (buf bw)
          \<and> Hash x (updateHashes x (buf bw) t)
              = Ok (Sha256 x (BytesBE x (Sha256 x (buf bw))), updateHashes x (buf bw) t)
          \<and> VerificationHash x (updateHashes x (buf bw) t)
              = Ok (Sha256 x (buf bw), updateHashes x (buf bw) t)"
    using ok Hash_fresh[of x t "buf bw"] Hash_again[of x t "buf bw"]
    by (simp add: updateHashes_def Let_def)
  have 2: "hash t = 0 \<and> (Script t = [] \<or> Err bw \<noteq> None \<or> buf bw = [])
          \<longrightarrow> Hash x t = Panic ''failed to compute hash!''"
    using bad Hash_panics(1)[of x t] by blast
  have 3: "verificationHash t = 0 \<and> (Script t = [] \<or> Err bw \<noteq> None \<or> buf bw = [])
          \<longrightarrow> VerificationHash x t = Panic ''failed to compute hash!''"
    using bad Hash_panics(2)[of x t] by blast
  have 4: "h \<noteq> 0 \<longrightarrow> Hash x (NewTrimmedTX h :: ('a, 'b, 'c) Transaction) = Ok (h, NewTrimmedTX h)"
    by (simp add: Hash_set NewTrimmedTX_def)
  show ?thesis
    using 1 2 3 4 Hash_set[of t x] VerificationHash_set[of t x] by blast
qed

lemma exTransaction_buf:
  "WriteVarBytes exExternals (Script exTransaction)
           (WriteCosigners exExternals (Cosigners exTransaction)
             (WriteAttributes exExternals (Attributes exTransaction)
               (WriteU32LE exExternals (ValidUntilBlock exTransaction)
                 (WriteU64LE exExternals (NetworkFeeT exTransaction)
                   (WriteU64LE exExternals (SystemFee exTransaction)
                     (Uint160_EncodeBinary exExternals (Sender exTransaction)
                       (WriteU32LE exExternals (Nonce exTransaction)
                         (WriteB exExternals (Version exTransaction)
                           (WriteU32LE exExternals (Network exTransaction) NewBufBinWriter)))))))))
     = \<lparr>buf = exSignedPart, Err = None\<rparr>"
  by code_simp

theorem Hash_memoized_witness:
  "GetSignedPart exExternals exTransaction = Some exSignedPart
   \<and> Hash exExternals exTransaction
       = Ok (7442483692814661840092473599641741826698613306448,
             updateHashes exExternals exSignedPart exTransaction)
   \<and> VerificationHash exExternals exTransaction
       = Ok (97001500757704760652233591150068808765733841602453281485084494348315664811884,
             updateHashes exExternals exSignedPart exTransaction)
   \<and> Hash exExternals (updateHashes exExternals exSignedPart exTransaction)
       = Ok (7442483692814661840092473599641741826698613306448,
             updateHashes exExternals exSignedPart exTransaction)
   \<and> VerificationHash exExternals (exTransaction\<lparr>hash := 42\<rparr>)
       = Ok (97001500757704760652233591150068808765733841602453281485084494348315664811884,
             updateHashes exExternals exSignedPart exTransaction)
   \<and> Hash exExternals exNoScript = Panic ''failed to compute hash!''
   \<and> Hash exExternals exTrimmed = Ok (42, exTrimmed)"
proof -
  have h: "hash exTransaction = 0" "verificationHash exTransaction = 0" "Script exTransaction \<noteq> []"
    "exSignedPart \<noteq> []"
    by (simp_all add: exTransaction_def New_def exSignedPart_def)
  have s: "Sha256 exExternals exSignedPart
             = 97001500757704760652233591150068808765733841602453281485084494348315664811884"
    "Sha256 exExternals (BytesBE exExternals
        97001500757704760652233591150068808765733841602453281485084494348315664811884)
             = 7442483692814661840092473599641741826698613306448"
    by code_simp+
  have n: "hash exNoScript = 0" "Script exNoScript = []" "hash exTrimmed \<noteq> 0"
    by (simp_all add: exNoScript_def exTrimmed_def New_def NewTrimmedTX_def)
  have e: "hash exTrimmed = 42"
    by (simp add: exTrimmed_def NewTrimmedTX_def)
  have A: "GetSignedPart exExternals exTransaction = Some exSignedPart
     \<and> Hash exExternals exTransaction
       = Ok (7442483692814661840092473599641741826698613306448,
             updateHashes exExternals exSignedPart exTransaction)
     \<and> VerificationHash exExternals exTransaction
       = Ok (97001500757704760652233591150068808765733841602453281485084494348315664811884,
             updateHashes exExternals exSignedPart exTransaction)
     \<and> Hash exExternals (updateHashes exExternals exSignedPart exTransaction)
       = Ok (7442483692814661840092473599641741826698613306448,
             updateHashes exExternals exSignedPart exTransaction)"
    using Hash_memoized[OF exTransaction_buf[symmetric], where h = 42] h
    unfolding BinWriter.simps s by blast
  have B: "Hash exExternals exNoScript = Panic ''failed to compute hash!''"
    using Hash_memoized[OF refl, where x = exExternals and t = exNoScript and h = 42] n(1,2) by blast
  have C: "Hash exExternals exTrimmed = Ok (42, exTrimmed)"
    using Hash_memoized[OF refl, where x = exExternals and t = exTrimmed and h = 42] n(3) e by metis
  have u: "updateHashes exExternals exSignedPart (exTransaction\<lparr>hash := 42\<rparr>)
             = updateHashes exExternals exSignedPart exTransaction"
    by (simp add: updateHashes_def Let_def)
  have D: "VerificationHash exExternals (exTransaction\<lparr>hash := 42\<rparr>)
       = Ok (97001500757704760652233591150068808765733841602453281485084494348315664811884,
             updateHashes exExternals exSignedPart exTransaction)"
  proof -
    have b: "WriteVarBytes exExternals (Script (exTransaction\<lparr>hash := 42\<rparr>))
           (WriteCosigners exExternals (Cosigners (exTransaction\<lparr>hash := 42\<rparr>))
             (WriteAttributes exExternals (Attributes (exTransaction\<lparr>hash := 42\<rparr>))
               (WriteU32LE exExternals (ValidUntilBlock (exTransaction\<lparr>hash := 42\<rparr>))
                 (WriteU64LE exExternals (NetworkFeeT (exTransaction\<lparr>hash := 42\<rparr>))
                   (WriteU64LE exExternals (SystemFee (exTransaction\<lparr>hash := 42\<rparr>))
                     (Uint160_EncodeBinary exExternals (Sender (exTransaction\<lparr>hash := 42\<rparr>))
                       (WriteU32LE exExternals (Nonce (exTransaction\<lparr>hash := 42\<rparr>))
                         (WriteB exExternals (Version (exTransaction\<lparr>hash := 42\<rparr>))
                           (WriteU32LE exExternals (Network (exTransaction\<lparr>hash := 42\<rparr>))
                             NewBufBinWriter)))))))))
       = \<lparr>buf = exSignedPart, Err = None\<rparr>"
      using exTransaction_buf by simp
    have g: "Script (exTransaction\<lparr>hash := 42\<rparr>) \<noteq> []"
      "verificationHash (exTransaction\<lparr>hash := 42\<rparr>) = 0"
      using h by simp_all
    show ?thesis
      using Hash_memoized[OF b[symmetric], where h = 42] h(4) g
      unfolding BinWriter.simps s u by blast
  qed
  show ?thesis
    using A B C D by blast
qed

section \<open>Arithmetic opcodes\<close>

text \<open>
  Claim C1: an arithmetic opcode on two integers leaves the standard big-integer result on
  the stack when the result is within the maximum bit width (ADD on 2 and 4 leaves 6, DIV
  on 4 and 2 leaves 2, MUL on 4 and 2 leaves 8, here at 256 bits), and faults with
  ArithmeticOverflow when the result exceeds it.
\<close>

theorem execArith_result_or_overflow:
  "(\<not> (opc = DIV \<and> b = 0) \<and> fitsBits w (applyArith opc a b)
      \<longrightarrow> execArith w opc (b # a # st) = Inr (applyArith opc a b # st))
   \<and> (\<not> (opc = DIV \<and> b = 0) \<and> \<not> fitsBits w (applyArith opc a b)
      \<longrightarrow> execArith w opc (b # a # st) = Inl ArithmeticOverflow)
   \<and> execArith 256 ADD (4 # 2 # st) = Inr (6 # st)
   \<and> execArith 256 DIV (2 # 4 # st) = Inr (2 # st)
   \<and> execArith 256 MUL (2 # 4 # st) = Inr (8 # st)"
  by (simp add: fitsBits_def signed_divide_int_def)

theorem execArith_result_or_overflow_witness:
  "execArith 256 MUL (2 ^ 200 # 2 ^ 200 # []) = Inl ArithmeticOverflow
   \<and> execArith 256 SUB (3 # 10 # []) = Inr [7]"
  using execArith_result_or_overflow[of MUL "2 ^ 200" 256 "2 ^ 200" "[]"]
    execArith_result_or_overflow[of SUB 3 256 10 "[]"]
  by (simp add: fitsBits_def)


section \<open>The binary search and the list that Add builds\<close>

lemma Search_loop_stop: "\<not> i < j \<Longrightarrow> Search_loop f i j = i"
  by (simp add: Search_loop.simps[of f i j])

lemma Search_loop_right:
  "i < j \<Longrightarrow> \<not> f ((i + j) div 2) \<Longrightarrow> Search_loop f i j = Search_loop f ((i + j) div 2 + 1) j"
  by (simp add: Search_loop.simps[of f i j] Let_def)

lemma Search_loop_left:
  "i < j \<Longrightarrow> f ((i + j) div 2) \<Longrightarrow> Search_loop f i j = Search_loop f i ((i + j) div 2)"
  by (simp add: Search_loop.simps[of f i j] Let_def)

lemma Search_mid: "i < j \<Longrightarrow> i \<le> (i + j) div 2 \<and> (i + j) div 2 < (j::nat)"
  by arith




lemma Search_loop_bounds: "i \<le> j \<Longrightarrow> i \<le> Search_loop f i j \<and> Search_loop f i j \<le> j"
proof (induction "j - i" arbitrary: i j rule: less_induct)
  case less
  show ?case
  proof (cases "i < j")
    case False
    then show ?thesis using less.prems by (simp add: Search_loop_stop)
  next
    case True
    note mid = Search_mid[OF True]
    show ?thesis
    proof (cases "f ((i + j) div 2)")
      case False
      have "(i + j) div 2 + 1 \<le> j" "j - ((i + j) div 2 + 1) < j - i" using mid by linarith+
      from less.hyps[OF this(2) this(1)] show ?thesis
        using mid True False by (simp add: Search_loop_right[of i j f])
    next
      case fh: True
      have "i \<le> (i + j) div 2" "(i + j) div 2 - i < j - i" using mid True by linarith+
      from less.hyps[OF this(2) this(1)] show ?thesis
        using mid True fh by (simp add: Search_loop_left[of i j f])
    qed
  qed
qed

lemma Search_le: "Search n f \<le> n"
  using Search_loop_bounds[of 0 n f] by (simp add: Search_def)

lemma replace_last: "s \<noteq> [] \<Longrightarrow> s[length s - 1 := p] = butlast s @ [p]"
  by (induction s) (auto split: nat.splits)

lemma shiftInsert_append:
  "n < length s \<Longrightarrow> shiftInsert (s @ [p]) n p = take n s @ p # drop n s"
  by (simp add: shiftInsert_def list_update_append upd_conv_take_nth_drop min_def
      Cons_nth_drop_Suc take_Suc_conv_app_nth)

lemma shiftInsert_replace:
  assumes "n < length s - 1"
  shows "shiftInsert (s[length s - 1 := p]) n p = take n s @ p # drop n (butlast s)"
proof -
  have ne: "s \<noteq> []" using assms by auto
  have nb: "n < length (butlast s)" using assms by simp
  have "shiftInsert (butlast s @ [p]) n p
        = (take (n + 1) (butlast s) @ take (length (butlast s) - n) (drop n (butlast s) @ [p]))[n := p]"
    using nb by (simp add: shiftInsert_def)
  also have "\<dots> = (take (n + 1) (butlast s) @ drop n (butlast s))[n := p]"
    by simp
  also have "\<dots> = take n (butlast s) @ p # drop n (butlast s)"
    using nb by (simp add: list_update_append take_Suc_conv_app_nth)
  also have "take n (butlast s) = take n s"
    using nb by (simp add: take_butlast)
  finally show ?thesis using replace_last[OF ne, of p] by simp
qed


lemma Add_unfold:
  "Add t fee now mp =
     (if \<not> verifyInputs mp t then (Some ErrConflict, mp)
      else if containsKey mp (TxHash t) then (Some ErrDup, mp)
      else
        (let p = mkItem fee now t; s = verifiedTxes mp;
             n = Search (length s) (\<lambda>k. CompareTo p (Some (s ! k)) > 0)
         in
         if length s = capacity mp then
           (if n = length s
            then (Some ErrOOM, mp\<lparr>verifiedMap := (verifiedMap mp)(TxHash t \<mapsto> p)\<rparr>)
            else (None, mp\<lparr>verifiedMap :=
                              ((verifiedMap mp)(TxHash t \<mapsto> p))
                                (TxHash (txn (s ! (length s - 1))) := None),
                            verifiedTxes :=
                              (if n \<noteq> length s - 1
                               then shiftInsert (s[length s - 1 := p]) n p
                               else s[length s - 1 := p])\<rparr>))
         else (None, mp\<lparr>verifiedMap := (verifiedMap mp)(TxHash t \<mapsto> p),
                         verifiedTxes :=
                           (if n \<noteq> length s
                            then shiftInsert (s @ [p]) n p
                            else s @ [p])\<rparr>)))"
  by (simp add: Add_def Let_def mkItem_def)

lemma Add_ok:
  assumes vi: "verifyInputs mp t" and nk: "\<not> containsKey mp (TxHash t)"
    and p: "p = mkItem fee now t" and s: "s = verifiedTxes mp"
    and n: "n = Search (length s) (\<lambda>k. CompareTo p (Some (s ! k)) > 0)"
  shows "Add t fee now mp =
     (if length s = capacity mp then
        (if n = length s
         then (Some ErrOOM, mp\<lparr>verifiedMap := (verifiedMap mp)(TxHash t \<mapsto> p)\<rparr>)
         else (None, mp\<lparr>verifiedMap :=
                           ((verifiedMap mp)(TxHash t \<mapsto> p))(TxHash (txn (last s)) := None),
                         verifiedTxes := take n s @ p # drop n (butlast s)\<rparr>))
      else (None, mp\<lparr>verifiedMap := (verifiedMap mp)(TxHash t \<mapsto> p),
                      verifiedTxes := take n s @ p # drop n s\<rparr>))"
proof -
  have nle: "n \<le> length s" unfolding n by (rule Search_le)
  have A: "Add t fee now mp =
         (if length s = capacity mp then
           (if n = length s
            then (Some ErrOOM, mp\<lparr>verifiedMap := (verifiedMap mp)(TxHash t \<mapsto> p)\<rparr>)
            else (None, mp\<lparr>verifiedMap :=
                              ((verifiedMap mp)(TxHash t \<mapsto> p))
                                (TxHash (txn (s ! (length s - 1))) := None),
                            verifiedTxes :=
                              (if n \<noteq> length s - 1
                               then shiftInsert (s[length s - 1 := p]) n p
                               else s[length s - 1 := p])\<rparr>))
         else (None, mp\<lparr>verifiedMap := (verifiedMap mp)(TxHash t \<mapsto> p),
                         verifiedTxes :=
                           (if n \<noteq> length s
                            then shiftInsert (s @ [p]) n p
                            else s @ [p])\<rparr>))"
    unfolding Add_unfold Let_def p[symmetric] s[symmetric] n[symmetric]
    using vi nk by simp
  have B: "n \<noteq> length s \<Longrightarrow>
      (if n \<noteq> length s - 1 then shiftInsert (s[length s - 1 := p]) n p
       else s[length s - 1 := p]) = take n s @ p # drop n (butlast s)"
  proof -
    assume "n \<noteq> length s"
    then have nlt: "n < length s" using nle by simp
    then have ne: "s \<noteq> []" by auto
    show ?thesis
    proof (cases "n = length s - 1")
      case True
      have "s[length s - 1 := p] = take n s @ p # drop n (butlast s)"
        using ne True replace_last[OF ne, of p] by (simp add: butlast_conv_take)
      then show ?thesis using True by simp
    next
      case F2: False
      then have "n < length s - 1" using nlt by simp
      from shiftInsert_replace[OF this] show ?thesis using F2 by simp
    qed
  qed
  have C: "(if n \<noteq> length s then shiftInsert (s @ [p]) n p else s @ [p])
           = take n s @ p # drop n s"
  proof (cases "n = length s")
    case True
    then show ?thesis by simp
  next
    case False
    then have "n < length s" using nle by simp
    from shiftInsert_append[OF this] show ?thesis using False by simp
  qed
  have D: "n \<noteq> length s \<Longrightarrow> s ! (length s - 1) = last s"
    using nle by (cases s) (auto simp: last_conv_nth)
  show ?thesis
    unfolding A C using B D by auto
qed

section \<open>Conflicting inputs\<close>

lemma verifyInputs_iff:
  "verifyInputs mp t \<longleftrightarrow> (\<forall>it\<in>set (verifiedTxes mp). \<not> sharesInput (txn it) t)"
  by (auto simp: verifyInputs_def list_ex_iff sharesInput_def)

lemma sharesInput_sym: "sharesInput t u \<longleftrightarrow> sharesInput u t"
  by (auto simp: sharesInput_def)

lemma noSharedInputs_insert:
  assumes "noSharedInputs s" and "\<forall>it\<in>set s. \<not> sharesInput (txn it) (txn p)"
  shows "noSharedInputs (take n s @ p # drop n s)"
proof -
  let ?P = "\<lambda>a b. \<not> sharesInput (txn a) (txn b)"
  have "sorted_wrt ?P (take n s @ drop n s)" using assms(1) by (simp add: noSharedInputs_def)
  then have abc: "sorted_wrt ?P (take n s) \<and> sorted_wrt ?P (drop n s)
    \<and> (\<forall>x\<in>set (take n s). \<forall>y\<in>set (drop n s). ?P x y)"
    unfolding sorted_wrt_append by blast
  have a: "sorted_wrt ?P (take n s)" and b: "sorted_wrt ?P (drop n s)"
    and c: "\<forall>x\<in>set (take n s). \<forall>y\<in>set (drop n s). ?P x y"
    using abc by blast+
  have d: "\<forall>x\<in>set (take n s). ?P x p" using assms(2) by (meson in_set_takeD)
  have e: "\<forall>y\<in>set (drop n s). ?P p y"
    using assms(2) sharesInput_sym by (meson in_set_dropD)
  show ?thesis
    unfolding noSharedInputs_def using a b c d e by (simp add: sorted_wrt_append)
qed

lemma noSharedInputs_butlast: "noSharedInputs s \<Longrightarrow> noSharedInputs (butlast s)"
  by (simp add: noSharedInputs_def butlast_conv_take sorted_wrt_take)

lemma noSharedInputs_insert_butlast:
  assumes "noSharedInputs s" and "\<forall>it\<in>set s. \<not> sharesInput (txn it) (txn p)"
    and "n < length s"
  shows "noSharedInputs (take n s @ p # drop n (butlast s))"
proof -
  have "take n s = take n (butlast s)" using assms(3) by (simp add: take_butlast)
  moreover have "\<forall>it\<in>set (butlast s). \<not> sharesInput (txn it) (txn p)"
    using assms(2) by (meson in_set_butlastD)
  ultimately show ?thesis
    using noSharedInputs_insert[OF noSharedInputs_butlast[OF assms(1)], of p n] by simp
qed

lemma Add_noSharedInputs:
  assumes "noSharedInputs (verifiedTxes mp)"
  shows "noSharedInputs (verifiedTxes (snd (Add t fee now mp)))"
proof (cases "verifyInputs mp t \<and> \<not> containsKey mp (TxHash t)")
  case False
  show ?thesis
  proof (cases "verifyInputs mp t")
    case vi: True
    then have "containsKey mp (TxHash t)" using False by simp
    then show ?thesis using assms by (simp add: Add_dup[OF vi])
  next
    case False
    then show ?thesis using assms by (simp add: Add_conflict)
  qed
next
  case True
  define p where "p = mkItem fee now t"
  define s where "s = verifiedTxes mp"
  define n where "n = Search (length s) (\<lambda>k. CompareTo p (Some (s ! k)) > 0)"
  have d: "\<forall>it\<in>set s. \<not> sharesInput (txn it) (txn p)"
    using True by (simp add: verifyInputs_iff s_def p_def mkItem_def)
  have nle: "n \<le> length s" unfolding n_def by (rule Search_le)
  note A = Add_ok[OF conjunct1[OF True] conjunct2[OF True] p_def s_def n_def]
  show ?thesis
  proof (cases "length s = capacity mp")
    case cap: True
    show ?thesis
    proof (cases "n = length s")
      case True
      then show ?thesis using assms cap by (simp add: A)
    next
      case False
      then have "n < length s" using nle by simp
      from noSharedInputs_insert_butlast[OF assms[folded s_def] d this]
      show ?thesis using cap False by (simp add: A)
    qed
  next
    case False
    then show ?thesis
      using noSharedInputs_insert[OF assms[folded s_def] d, of n] by (simp add: A)
  qed
qed

lemma Remove_verifiedTxes:
  "verifiedTxes (Remove h mp) = verifiedTxes mp \<or> verifiedTxes (Remove h mp) = drop 1 (verifiedTxes mp)"
  by (cases "verifiedTxes mp") (auto simp: Remove_def Let_def split: option.splits)

lemma RemoveStale_loop_list:
  "snd (RemoveStale_loop isOK xs m acc) = acc @ filter (\<lambda>it. isOK (txn it)) xs"
  by (induction xs arbitrary: m acc) auto

lemma RemoveStale_verifiedTxes:
  "verifiedTxes (RemoveStale isOK mp) = filter (\<lambda>it. isOK (txn it)) (verifiedTxes mp)"
  using RemoveStale_loop_list[of isOK "verifiedTxes mp" "verifiedMap mp" "[]"]
  by (cases "RemoveStale_loop isOK (verifiedTxes mp) (verifiedMap mp) []")
    (simp add: RemoveStale_def)

lemma reachable_noSharedInputs: "reachable mp \<Longrightarrow> noSharedInputs (verifiedTxes mp)"
proof (induction rule: reachable.induct)
  case (reach_new c)
  then show ?case by (simp add: NewMemPool_def noSharedInputs_def)
next
  case (reach_add mp t fee now)
  from reach_add.IH show ?case by (rule Add_noSharedInputs)
next
  case (reach_remove mp h)
  then show ?case
    using Remove_verifiedTxes[of h mp]
    by (auto simp: noSharedInputs_def sorted_wrt_drop)
next
  case (reach_stale mp isOK)
  then show ?case
    by (simp add: RemoveStale_verifiedTxes noSharedInputs_def sorted_wrt_filter)
qed

text \<open>
  Claim C7: a transaction that shares an input with a transaction held in the pool is
  refused with the conflict error and the pool stays as it was; hence in every pool that
  the operations build from a new one, no two of the transactions held share an input.
\<close>

theorem Add_refuses_shared_inputs:
  "((\<exists>it\<in>set (verifiedTxes mp). sharesInput (txn it) t)
      \<longrightarrow> Add t fee now mp = (Some ErrConflict, mp))
   \<and> (reachable mp
      \<longrightarrow> (\<forall>i j. i < j \<and> j < length (verifiedTxes mp)
             \<longrightarrow> \<not> sharesInput (txn (verifiedTxes mp ! i)) (txn (verifiedTxes mp ! j))))"
proof -
  have "reachable mp \<Longrightarrow> i < j \<Longrightarrow> j < length (verifiedTxes mp)
       \<Longrightarrow> \<not> sharesInput (txn (verifiedTxes mp ! i)) (txn (verifiedTxes mp ! j))" for i j
    using reachable_noSharedInputs[of mp]
    by (simp add: noSharedInputs_def sorted_wrt_iff_nth_less)
  then show ?thesis
    using Add_conflict[of mp t fee now] by (auto simp: verifyInputs_iff)
qed


theorem Add_refuses_shared_inputs_witness:
  "Add (exTx 3 [exInput 1, exInput 5]) exFeer 1 exPoolIn = (Some ErrConflict, exPoolIn)
   \<and> \<not> sharesInput (txn (verifiedTxes exPoolTwoIn ! 0)) (txn (verifiedTxes exPoolTwoIn ! 1))"
proof -
  have a: "\<exists>it\<in>set (verifiedTxes exPoolIn). sharesInput (txn it) (exTx 3 [exInput 1, exInput 5])"
    by code_simp
  have r: "reachable exPoolTwoIn"
    unfolding exPoolTwoIn_def exPoolIn_def by (intro reach_add reach_new)
  have l: "length (verifiedTxes exPoolTwoIn) = 2" by code_simp
  show ?thesis
    using Add_refuses_shared_inputs[of exPoolIn "exTx 3 [exInput 1, exInput 5]" exFeer 1] Add_refuses_shared_inputs[of exPoolTwoIn] a r l
    by auto
qed

section \<open>The capacity policy\<close>
























end
